theory Spec2Isabelle
  imports Complex_Main "HOL-Library.Multiset"
begin

section \<open>Smart grid demand-response coordinator (smartGrid.cpp)\<close>

text \<open>
  Conventions of the embedding.
  \<^item> \<open>double\<close> is a type parameter \<open>'d\<close> of the model. The code uses \<open>0\<close>, \<open>+\<close>,
    \<open>-\<close>, \<open><\<close> and \<open>>=\<close> on it, and the model asks for nothing but these
    operations on \<open>'d\<close>: no law of arithmetic is assumed, so a theorem stated for
    every \<open>'d\<close> holds with the operations read as the machine's. A theorem
    that needs laws of arithmetic takes them as premises or is stated for the
    instance \<open>real\<close>.
  \<^item> Two instances are used. \<open>real\<close> is exact arithmetic; it runs the examples
    whose values and intermediate results are small integers, on which double
    arithmetic is exact too. \<open>fp\<close>, defined below, is binary floating point with
    a 53-bit significand and rounding to nearest, ties to even: the arithmetic
    of \<open>double\<close> on normal numbers. Overflow, subnormal numbers, infinities,
    NaN and the sign of zero are outside \<open>fp\<close>.
  \<^item> \<open>time_t\<close> is modelled as \<open>int\<close>; the core only compares instants.
  \<^item> \<open>time(nullptr)\<close> is a parameter \<open>now\<close> of \<open>runScheduler\<close>.
  \<^item> The requests live on the C++ heap and the queue holds pointers to them, so the
    model has an explicit store from addresses to request objects, threaded
    through every operation that writes \<open>req->state\<close>.
\<close>


subsection \<open>Binary floating point\<close>

text \<open>
  \<open>Fp m e\<close> stands for the number \<open>m * 2 ^ e\<close>. The results of the operations are
  normalised: the significand is odd, or the number is \<open>Fp 0 0\<close>.
\<close>

datatype fp = Fp int int

text \<open>The number of binary digits of a positive integer.\<close>

function bit_length :: "int \<Rightarrow> nat" where
  "bit_length n = (if n \<le> 0 then 0 else Suc (bit_length (n div 2)))"
  by pat_completeness auto
termination
  by (relation "measure nat") auto

declare bit_length.simps [simp del]

text \<open>
  \<open>round_even a k\<close> is \<open>a / 2 ^ k\<close> rounded to the nearest integer, a tie going to
  the even neighbour, for \<open>a \<ge> 0\<close>.
\<close>

definition round_even :: "int \<Rightarrow> nat \<Rightarrow> int" where
  "round_even a k =
     (let q = a div 2 ^ k; r = a mod 2 ^ k
      in if 2 * r < 2 ^ k then q
         else if 2 ^ k < 2 * r then q + 1
         else if even q then q else q + 1)"

text \<open>Rounding of \<open>m * 2 ^ e\<close> to 53 significant binary digits.\<close>

definition fp_round :: "int \<Rightarrow> int \<Rightarrow> int \<times> int" where
  "fp_round m e =
     (let n = bit_length \<bar>m\<bar>
      in if n \<le> 53 then (m, e)
         else (sgn m * round_even \<bar>m\<bar> (n - 53), e + int (n - 53)))"

function fp_norm :: "int \<Rightarrow> int \<Rightarrow> fp" where
  "fp_norm m e =
     (if m = 0 then Fp 0 0
      else if even m then fp_norm (m div 2) (e + 1)
      else Fp m e)"
  by pat_completeness auto
termination
  by (relation "measure (\<lambda>(m, e). nat \<bar>m\<bar>)") auto

declare fp_norm.simps [simp del]

text \<open>The exact sum of the two numbers, rounded.\<close>

definition fp_add :: "fp \<Rightarrow> fp \<Rightarrow> fp" where
  "fp_add a b =
     (case a of Fp m1 e1 \<Rightarrow> case b of Fp m2 e2 \<Rightarrow>
        (let e = min e1 e2;
             m = m1 * 2 ^ nat (e1 - e) + m2 * 2 ^ nat (e2 - e)
         in case fp_round m e of (m', e') \<Rightarrow> fp_norm m' e'))"

definition fp_neg :: "fp \<Rightarrow> fp" where
  "fp_neg a = (case a of Fp m e \<Rightarrow> Fp (- m) e)"

definition fp_less_eq :: "fp \<Rightarrow> fp \<Rightarrow> bool" where
  "fp_less_eq a b =
     (case a of Fp m1 e1 \<Rightarrow> case b of Fp m2 e2 \<Rightarrow>
        (let e = min e1 e2
         in m1 * 2 ^ nat (e1 - e) \<le> m2 * 2 ^ nat (e2 - e)))"

definition fp_less :: "fp \<Rightarrow> fp \<Rightarrow> bool" where
  "fp_less a b =
     (case a of Fp m1 e1 \<Rightarrow> case b of Fp m2 e2 \<Rightarrow>
        (let e = min e1 e2
         in m1 * 2 ^ nat (e1 - e) < m2 * 2 ^ nat (e2 - e)))"

instantiation fp :: "{zero, plus, minus, ord}"
begin

definition zero_fp :: fp where
  "zero_fp = Fp 0 0"

definition plus_fp :: "fp \<Rightarrow> fp \<Rightarrow> fp" where
  "plus_fp a b = fp_add a b"

definition minus_fp :: "fp \<Rightarrow> fp \<Rightarrow> fp" where
  "minus_fp a b = fp_add a (fp_neg b)"

definition less_eq_fp :: "fp \<Rightarrow> fp \<Rightarrow> bool" where
  "less_eq_fp a b = fp_less_eq a b"

definition less_fp :: "fp \<Rightarrow> fp \<Rightarrow> bool" where
  "less_fp a b = fp_less a b"

instance ..

end

subsection \<open>DemandRequest and CompareDemand\<close>

datatype State = CREATED | QUEUED | ALLOCATED | SHED | COMPLETED

text \<open>The dynamic type of a request object: the three concrete subclasses.\<close>

datatype RequestClass = ResidentialRequest | CommercialRequest | IndustrialRequest

record 'd DemandRequest =
  consumerID :: string
  megawatts :: 'd
  timestamp :: int
  state :: State
  dynClass :: RequestClass

text \<open>The virtual method \<open>priority()\<close>, dispatched on the dynamic type.\<close>

definition priority :: "'d DemandRequest \<Rightarrow> int" where
  "priority r =
     (case dynClass r of
        ResidentialRequest \<Rightarrow> 1
      | CommercialRequest \<Rightarrow> 2
      | IndustrialRequest \<Rightarrow> 3)"

definition CompareDemand :: "'d DemandRequest \<Rightarrow> 'd DemandRequest \<Rightarrow> bool" where
  "CompareDemand a b =
     (if priority a \<noteq> priority b then priority a < priority b
      else timestamp a > timestamp b)"

text \<open>
  The constructor \<open>DemandRequest(cid, mw)\<close> as the three subclasses call it; the
  value of \<open>time(nullptr)\<close> at construction is the last argument.
\<close>

definition mkRequest :: "RequestClass \<Rightarrow> string \<Rightarrow> 'd \<Rightarrow> int \<Rightarrow> 'd DemandRequest" where
  "mkRequest c cid mw t =
     \<lparr>consumerID = cid, megawatts = mw, timestamp = t, state = CREATED, dynClass = c\<rparr>"

subsection \<open>Substation\<close>

record 'd Substation =
  sub_id :: string
  capacityMW :: 'd
  usedMW :: 'd
  online :: bool

text \<open>The constructor \<open>Substation(i, cap)\<close> with the default member initialisers.\<close>

definition mkSubstation :: "string \<Rightarrow> 'd \<Rightarrow> ('d::zero) Substation" where
  "mkSubstation i cap = \<lparr>sub_id = i, capacityMW = cap, usedMW = 0, online = True\<rparr>"

definition available :: "('d::{zero,minus}) Substation \<Rightarrow> 'd" where
  "available s = (if online s then capacityMW s - usedMW s else 0)"

text \<open>\<open>allocate\<close> returns its result together with the substation after the call.\<close>

definition allocate ::
    "'d \<Rightarrow> ('d::{zero,plus,minus,ord}) Substation \<Rightarrow> bool \<times> 'd Substation" where
  "allocate mw s =
     (if available s \<ge> mw then (True, s\<lparr>usedMW := usedMW s + mw\<rparr>)
      else (False, s))"



text \<open>The capacity invariant of one substation: \<open>0 \<le> usedMW \<le> capacityMW\<close>.\<close>

definition capacity_inv :: "('d::{zero,ord}) Substation \<Rightarrow> bool" where
  "capacity_inv s \<longleftrightarrow> 0 \<le> usedMW s \<and> usedMW s \<le> capacityMW s"

subsection \<open>MaintenanceJob\<close>

datatype JobState = SCHEDULED | IN_PROGRESS | DONE

record MaintenanceJob =
  substationID :: string
  startTime :: int
  endTime :: int
  jobState :: JobState

definition mkMaintenanceJob :: "string \<Rightarrow> int \<Rightarrow> int \<Rightarrow> MaintenanceJob" where
  "mkMaintenanceJob sid st et =
     \<lparr>substationID = sid, startTime = st, endTime = et, jobState = SCHEDULED\<rparr>"

text \<open>The two \<open>if\<close> statements of \<open>advanceState\<close> run one after the other.\<close>

definition advanceState :: "int \<Rightarrow> MaintenanceJob \<Rightarrow> MaintenanceJob" where
  "advanceState now j =
     (let j1 = (if jobState j = SCHEDULED \<and> now \<ge> startTime j
                then j\<lparr>jobState := IN_PROGRESS\<rparr> else j);
          j2 = (if jobState j1 = IN_PROGRESS \<and> now \<ge> endTime j1
                then j1\<lparr>jobState := DONE\<rparr> else j1)
      in j2)"

text \<open>The declaration order of the enumeration, as a number.\<close>

fun jobRank :: "JobState \<Rightarrow> nat" where
  "jobRank SCHEDULED = 0"
| "jobRank IN_PROGRESS = 1"
| "jobRank DONE = 2"

subsection \<open>GridController\<close>

text \<open>
  Addresses of request objects, and the store they live in. Every address holds
  an object: the controller only dereferences the pointers it was handed.
\<close>

type_synonym addr = nat
type_synonym 'd heap = "addr \<Rightarrow> 'd DemandRequest"

text \<open>
  \<open>std::priority_queue<DemandRequest*, vector<DemandRequest*>, CompareDemand>\<close> is
  library code. It is modelled by its contract: the queue is the collection of
  its elements (a list, \<open>push\<close> adds one element), \<open>top\<close> is an element that is not
  less than any other under the comparator, and \<open>pop\<close> removes that element.
  Among elements that are equivalent under the comparator the library leaves
  the choice open; the model takes the one pushed first. The proofs about the
  scheduler use only two facts about \<open>top\<close>, \<open>pq_top_mem\<close> and \<open>pq_top_max\<close>:
  it is an element of the queue, and no element of the queue is greater.
\<close>

definition pq_push :: "addr \<Rightarrow> addr list \<Rightarrow> addr list" where
  "pq_push p q = q @ [p]"

text \<open>\<open>pq_top h p ps\<close> is \<open>top()\<close> of the non-empty queue \<open>p # ps\<close>.\<close>

fun pq_top :: "'d heap \<Rightarrow> addr \<Rightarrow> addr list \<Rightarrow> addr" where
  "pq_top h best [] = best"
| "pq_top h best (r # rs) =
     pq_top h (if CompareDemand (h best) (h r) then r else best) rs"

record 'd GridController =
  demandQ :: "addr list"
  substations :: "'d Substation list"
  maintenanceList :: "MaintenanceJob list"

definition newGridController :: "'d GridController" where
  "newGridController = \<lparr>demandQ = [], substations = [], maintenanceList = []\<rparr>"

definition addSubstation ::
    "string \<Rightarrow> 'd \<Rightarrow> ('d::zero) GridController \<Rightarrow> 'd GridController" where
  "addSubstation i cap g = g\<lparr>substations := substations g @ [mkSubstation i cap]\<rparr>"

text \<open>
  The operations that touch request objects take and return the pair of the
  store and the controller.
\<close>

fun receiveDemand ::
    "addr \<Rightarrow> 'd heap \<times> 'd GridController \<Rightarrow> 'd heap \<times> 'd GridController" where
  "receiveDemand req (h, g) =
     (let h' = h(req := (h req)\<lparr>state := QUEUED\<rparr>)
      in (h', g\<lparr>demandQ := pq_push req (demandQ g)\<rparr>))"

definition scheduleMaintenance ::
    "string \<Rightarrow> int \<Rightarrow> int \<Rightarrow> 'd GridController \<Rightarrow> 'd GridController" where
  "scheduleMaintenance sid start end g =
     g\<lparr>maintenanceList := maintenanceList g @ [mkMaintenanceJob sid start end]\<rparr>"

text \<open>
  Step 1 of \<open>runScheduler\<close>. \<open>setOnline\<close> is the inner loop over the substations
  for one job that has just been advanced; \<open>updateMaintenance\<close> is the outer loop
  over the maintenance list.
\<close>

definition setOnline :: "MaintenanceJob \<Rightarrow> 'd Substation list \<Rightarrow> 'd Substation list" where
  "setOnline job subs =
     map (\<lambda>sub. if sub_id sub = substationID job
                then sub\<lparr>online := (jobState job \<noteq> IN_PROGRESS)\<rparr> else sub) subs"

fun updateMaintenance ::
    "int \<Rightarrow> MaintenanceJob list \<Rightarrow> 'd Substation list
      \<Rightarrow> MaintenanceJob list \<times> 'd Substation list" where
  "updateMaintenance now [] subs = ([], subs)"
| "updateMaintenance now (job # jobs) subs =
     (let job' = advanceState now job;
          subs' = setOnline job' subs;
          (jobs', subs'') = updateMaintenance now jobs subs'
      in (job' # jobs', subs''))"

text \<open>
  Step 2. \<open>tryAllocate\<close> is the inner loop over the substations with its
  \<open>break\<close>; the result is the flag \<open>allocated\<close> and the substations after the loop.
\<close>

fun tryAllocate ::
    "'d \<Rightarrow> ('d::{zero,plus,minus,ord}) Substation list \<Rightarrow> bool \<times> 'd Substation list" where
  "tryAllocate mw [] = (False, [])"
| "tryAllocate mw (sub # subs) =
     (case allocate mw sub of
        (True, sub') \<Rightarrow> (True, sub' # subs)
      | (False, sub') \<Rightarrow>
          (case tryAllocate mw subs of (allocated, subs') \<Rightarrow> (allocated, sub' # subs')))"

text \<open>
  The body of the \<open>while\<close> loop for the request \<open>req\<close> that was just popped:
  try the substations, then write \<open>req->state\<close>.
\<close>

definition attempt ::
    "addr \<Rightarrow> 'd heap \<times> ('d::{zero,plus,minus,ord}) Substation list
      \<Rightarrow> 'd heap \<times> 'd Substation list" where
  "attempt req hs =
     (case hs of (h, subs) \<Rightarrow>
        (case tryAllocate (megawatts (h req)) subs of
           (allocated, subs') \<Rightarrow>
             (h(req := (h req)\<lparr>state := (if allocated then ALLOCATED else SHED)\<rparr>), subs')))"

lemma pq_top_mem: "pq_top h p ps \<in> set (p # ps)"
  by (induction ps arbitrary: p) auto

text \<open>
  The \<open>while (!demandQ.empty())\<close> loop; the arguments are the store, the
  substations, \<open>demandQ\<close> and \<open>temp\<close>.
\<close>

function processDemands ::
    "'d heap \<Rightarrow> ('d::{zero,plus,minus,ord}) Substation list \<Rightarrow> addr list \<Rightarrow> addr list
      \<Rightarrow> 'd heap \<times> 'd Substation list \<times> addr list \<times> addr list" where
  "processDemands h subs [] temp = (h, subs, [], temp)"
| "processDemands h subs (p # ps) temp =
     (let req = pq_top h p ps;
          q' = remove1 req (p # ps);
          (h', subs') = attempt req (h, subs)
      in processDemands h' subs' q' (temp @ [req]))"
  by pat_completeness auto
termination
proof (relation "measure (\<lambda>(h, subs, q, temp). length q)")
  show "wf (measure (\<lambda>(h, subs, q, temp). length q))" by simp
next
  fix h :: "'d heap" and subs :: "'d Substation list" and p :: addr and ps temp :: "addr list"
    and req q' x h' subs'
  assume "req = pq_top h p ps" and "q' = remove1 req (p # ps)"
  moreover have "pq_top h p ps \<in> set (p # ps)" by (rule pq_top_mem)
  ultimately have "length q' < length (p # ps)"
    by (simp only: length_remove1 if_True) simp
  then show "((h', subs', q', temp @ [req]), (h, subs, p # ps, temp))
      \<in> measure (\<lambda>(h, subs, q, temp). length q)"
    by simp
qed

text \<open>Step 3: the loop that empties \<open>temp\<close> and pushes back what is still QUEUED.\<close>

fun requeue :: "'d heap \<Rightarrow> addr list \<Rightarrow> addr list \<Rightarrow> addr list" where
  "requeue h [] q = q"
| "requeue h (r # temp) q =
     requeue h temp (if state (h r) = QUEUED then pq_push r q else q)"

fun runScheduler ::
    "int \<Rightarrow> 'd heap \<times> ('d::{zero,plus,minus,ord}) GridController
      \<Rightarrow> 'd heap \<times> 'd GridController" where
  "runScheduler now (h, g) =
     (let (jobs', subs1) = updateMaintenance now (maintenanceList g) (substations g);
          (h', subs2, q', temp) = processDemands h subs1 (demandQ g) [];
          q'' = requeue h' temp q'
      in (h', \<lparr>demandQ = q'', substations = subs2, maintenanceList = jobs'\<rparr>))"

text \<open>
  The contents of \<open>temp\<close> when the \<open>while\<close> loop of a cycle exits: the requests in
  the order in which the cycle popped and attempted them.
\<close>

fun attemptOrder ::
    "int \<Rightarrow> 'd heap \<times> ('d::{zero,plus,minus,ord}) GridController \<Rightarrow> addr list" where
  "attemptOrder now (h, g) =
     (case processDemands h (snd (updateMaintenance now (maintenanceList g) (substations g)))
             (demandQ g) [] of
        (h', subs', q', temp) \<Rightarrow> temp)"

declare runScheduler.simps [simp del] attemptOrder.simps [simp del]

subsection \<open>Example runs\<close>

text \<open>A store in which no request has been constructed yet.\<close>

definition noHeap :: "('d::zero) heap" where
  "noHeap = (\<lambda>a. mkRequest ResidentialRequest [] 0 0)"

text \<open>The grid that \<open>main\<close> sets up.\<close>

definition mainGrid :: "('d::{zero,numeral}) GridController" where
  "mainGrid = addSubstation ''S03'' 60 (addSubstation ''S02'' 40
                (addSubstation ''S01'' 50 newGridController))"

text \<open>
  Four requests reported to the grid of \<open>main\<close> in the order of their addresses:
  a residential one, an industrial one, and two commercial ones of which the
  second was constructed earlier.
\<close>

definition demoPending :: "real heap \<times> real GridController" where
  "demoPending =
     receiveDemand 3 (receiveDemand 2 (receiveDemand 1 (receiveDemand 0
       (noHeap(0 := mkRequest ResidentialRequest ''R1'' 70 100,
               1 := mkRequest IndustrialRequest ''I1'' 30 105,
               2 := mkRequest CommercialRequest ''C1'' 10 110,
               3 := mkRequest CommercialRequest ''C2'' 15 102),
        mainGrid))))"

text \<open>
  The grid S01 (50 MW), S02 (40 MW) with an industrial request for 30 MW and a
  residential request for 45 MW, reported in that order at the instants \<open>t1\<close>
  and \<open>t2\<close>.
\<close>

definition scenarioPending :: "int \<Rightarrow> int \<Rightarrow> real heap \<times> real GridController" where
  "scenarioPending t1 t2 =
     receiveDemand 1 (receiveDemand 0
       (noHeap(0 := mkRequest IndustrialRequest ''I1'' 30 t1,
               1 := mkRequest ResidentialRequest ''R1'' 45 t2),
        addSubstation ''S02'' 40 (addSubstation ''S01'' 50 newGridController)))"

text \<open>
  Two maintenance windows on S01, \<open>[0, 3600)\<close> and \<open>[7200, 10800)\<close>, scheduled in
  that order on the grid of \<open>main\<close>, and one industrial request for 30 MW.
\<close>

definition overlapPending :: "real heap \<times> real GridController" where
  "overlapPending =
     receiveDemand 0
       (noHeap(0 := mkRequest IndustrialRequest ''I1'' 30 5),
        scheduleMaintenance ''S01'' 7200 10800 (scheduleMaintenance ''S01'' 0 3600 mainGrid))"

text \<open>
  Substations over \<open>fp\<close>. S01 of \<open>main\<close> (50 MW) with 30 MW in use; S01 with
  the double nearest to 0.1 in use, as after \<open>report A res 0.1\<close> and \<open>balance\<close>;
  and a substation of capacity \<open>2 ^ 53 + 6\<close> with 3 MW in use.
\<close>

definition fpThirty :: "fp Substation" where
  "fpThirty = \<lparr>sub_id = ''S01'', capacityMW = Fp 25 1, usedMW = Fp 15 1, online = True\<rparr>"




section \<open>Auxiliary facts\<close>

lemma CompareDemand_keys:
  "dynClass a' = dynClass a \<Longrightarrow> timestamp a' = timestamp a \<Longrightarrow>
   dynClass b' = dynClass b \<Longrightarrow> timestamp b' = timestamp b \<Longrightarrow>
   CompareDemand a' b' = CompareDemand a b"
  by (simp add: CompareDemand_def priority_def)

lemma CompareDemand_negtrans:
  "\<not> CompareDemand a b \<Longrightarrow> \<not> CompareDemand b c \<Longrightarrow> \<not> CompareDemand a c"
  by (auto simp: CompareDemand_def split: if_splits)

lemma pq_top_max:
  "x \<in> set (p # ps) \<Longrightarrow> \<not> CompareDemand (h (pq_top h p ps)) (h x)"
proof (induction ps arbitrary: p x)
  case Nil
  then show ?case by (simp add: CompareDemand_def)
next
  case (Cons r rs)
  let ?b = "if CompareDemand (h p) (h r) then r else p"
  have top: "pq_top h p (r # rs) = pq_top h ?b rs" by simp
  have b: "\<not> CompareDemand (h (pq_top h ?b rs)) (h ?b)"
    using Cons.IH [where p = ?b and x = ?b] by simp
  have bp: "\<not> CompareDemand (h ?b) (h p)" "\<not> CompareDemand (h ?b) (h r)"
    by (auto simp: CompareDemand_def)
  from Cons.prems consider "x = p" | "x = r" | "x \<in> set rs" by auto
  then show ?case
  proof cases
    case 1
    then show ?thesis using b bp(1) CompareDemand_negtrans unfolding top by blast
  next
    case 2
    then show ?thesis using b bp(2) CompareDemand_negtrans unfolding top by blast
  next
    case 3
    then show ?thesis using Cons.IH [where p = ?b and x = x] unfolding top by simp
  qed
qed

lemma attempt_heap:
  "attempt req (h, subs) = (h', subs') \<Longrightarrow>
     h' = h(req := (h req)\<lparr>state := state (h' req)\<rparr>)
   \<and> (state (h' req) = ALLOCATED \<or> state (h' req) = SHED)"
  by (auto simp: attempt_def split: prod.splits if_splits)

lemma attempt_keys:
  assumes "attempt req (h, subs) = (h', subs')"
  shows "dynClass (h' p) = dynClass (h p)" "timestamp (h' p) = timestamp (h p)"
    "megawatts (h' p) = megawatts (h p)" "consumerID (h' p) = consumerID (h p)"
  using assms by (auto simp: attempt_def split: prod.splits)

lemma processDemands_order:
  "\<exists>order. processDemands h subs q temp =
       (fst (foldl (\<lambda>hs r. attempt r hs) (h, subs) order),
        snd (foldl (\<lambda>hs r. attempt r hs) (h, subs) order), [], temp @ order)
     \<and> mset order = mset q
     \<and> sorted_wrt (\<lambda>a b. \<not> CompareDemand (h a) (h b)) order"
proof (induction h subs q temp rule: processDemands.induct)
  case (1 h subs temp)
  show ?case by (rule exI [of _ "[]"]) simp
next
  case (2 h subs p ps temp)
  define req where "req = pq_top h p ps"
  define q1 where "q1 = remove1 req (p # ps)"
  obtain h1 subs1 where att: "attempt req (h, subs) = (h1, subs1)"
    by (cases "attempt req (h, subs)")
  from "2.IH" [OF req_def q1_def att [symmetric]]
  obtain order where
    run: "processDemands h1 subs1 q1 (temp @ [req]) =
       (fst (foldl (\<lambda>hs r. attempt r hs) (h1, subs1) order),
        snd (foldl (\<lambda>hs r. attempt r hs) (h1, subs1) order), [], (temp @ [req]) @ order)"
    and perm: "mset order = mset q1"
    and srt: "sorted_wrt (\<lambda>a b. \<not> CompareDemand (h1 a) (h1 b)) order"
    by blast
  have mem: "req \<in> set (p # ps)" unfolding req_def by (rule pq_top_mem)
  have same: "CompareDemand (h1 a) (h1 b) = CompareDemand (h a) (h b)" for a b
    by (rule CompareDemand_keys) (simp_all add: attempt_keys [OF att])
  have "set order = set q1" using perm by (rule mset_eq_setD)
  then have sub: "set order \<subseteq> set (p # ps)"
    unfolding q1_def using set_remove1_subset by fast
  have hd: "\<forall>x\<in>set order. \<not> CompareDemand (h req) (h x)"
    using sub pq_top_max [of _ p ps h] unfolding req_def by blast
  have step: "processDemands h subs (p # ps) temp = processDemands h1 subs1 q1 (temp @ [req])"
    using att by (simp add: Let_def req_def q1_def)
  have "processDemands h subs (p # ps) temp =
       (fst (foldl (\<lambda>hs r. attempt r hs) (h, subs) (req # order)),
        snd (foldl (\<lambda>hs r. attempt r hs) (h, subs) (req # order)), [], temp @ (req # order))"
    using step run att by simp
  moreover have "mset (req # order) = mset (p # ps)"
  proof -
    have "req \<in># mset (p # ps)" using mem by (simp only: set_mset_mset)
    then have "add_mset req (mset (p # ps) - {#req#}) = mset (p # ps)"
      by (rule insert_DiffM)
    then show ?thesis
      unfolding mset.simps(2) [of req order] perm q1_def mset_remove1 .
  qed
  moreover have "sorted_wrt (\<lambda>a b. \<not> CompareDemand (h a) (h b)) (req # order)"
    using srt hd by (simp add: same)
  ultimately show ?case by blast
qed

lemma foldl_attempt_keys:
  "dynClass (fst (foldl (\<lambda>hs r. attempt r hs) (h, subs) order) p) = dynClass (h p)
 \<and> timestamp (fst (foldl (\<lambda>hs r. attempt r hs) (h, subs) order) p) = timestamp (h p)
 \<and> megawatts (fst (foldl (\<lambda>hs r. attempt r hs) (h, subs) order) p) = megawatts (h p)
 \<and> consumerID (fst (foldl (\<lambda>hs r. attempt r hs) (h, subs) order) p) = consumerID (h p)"
proof (induction order arbitrary: h subs)
  case Nil
  show ?case by simp
next
  case (Cons r order)
  obtain h1 subs1 where att: "attempt r (h, subs) = (h1, subs1)"
    by (cases "attempt r (h, subs)")
  show ?case using Cons.IH [of h1 subs1] attempt_keys [OF att, of p] by (simp add: att)
qed

lemma foldl_attempt_state:
  "p \<in> set order \<Longrightarrow>
     state (fst (foldl (\<lambda>hs r. attempt r hs) (h, subs) order) p) = ALLOCATED
   \<or> state (fst (foldl (\<lambda>hs r. attempt r hs) (h, subs) order) p) = SHED"
proof (induction order rule: rev_induct)
  case Nil
  then show ?case by simp
next
  case (snoc r order)
  obtain h1 subs1 where F: "foldl (\<lambda>hs r. attempt r hs) (h, subs) order = (h1, subs1)"
    by (cases "foldl (\<lambda>hs r. attempt r hs) (h, subs) order")
  obtain h2 subs2 where att: "attempt r (h1, subs1) = (h2, subs2)"
    by (cases "attempt r (h1, subs1)")
  have h2: "h2 = h1(r := (h1 r)\<lparr>state := state (h2 r)\<rparr>)"
    and st: "state (h2 r) = ALLOCATED \<or> state (h2 r) = SHED"
    using attempt_heap [OF att] by simp_all
  show ?case
  proof (cases "p = r")
    case True
    then show ?thesis using st by (simp add: F att)
  next
    case False
    then have "p \<in> set order" using snoc.prems by simp
    then have "state (h1 p) = ALLOCATED \<or> state (h1 p) = SHED"
      using snoc.IH by (simp add: F)
    moreover have "h2 p = h1 p" using False by (subst h2) simp
    ultimately show ?thesis by (simp add: F att)
  qed
qed

lemma requeue_none:
  "\<forall>r\<in>set temp. state (h r) \<noteq> QUEUED \<Longrightarrow> requeue h temp q = q"
  by (induction temp arbitrary: q) simp_all

lemma runScheduler_fold:
  fixes now h g
  defines "subs1 \<equiv> snd (updateMaintenance now (maintenanceList g) (substations g))"
  defines "order \<equiv> attemptOrder now (h, g)"
  defines "F \<equiv> foldl (\<lambda>hs r. attempt r hs) (h, subs1) order"
  shows "mset order = mset (demandQ g)"
    and "sorted_wrt (\<lambda>a b. \<not> CompareDemand (h a) (h b)) order"
    and "runScheduler now (h, g) =
           (fst F, \<lparr>demandQ = [], substations = snd F,
                    maintenanceList = fst (updateMaintenance now (maintenanceList g) (substations g))\<rparr>)"
proof -
  obtain ord where
    run: "processDemands h subs1 (demandQ g) [] =
       (fst (foldl (\<lambda>hs r. attempt r hs) (h, subs1) ord),
        snd (foldl (\<lambda>hs r. attempt r hs) (h, subs1) ord), [], [] @ ord)"
    and perm: "mset ord = mset (demandQ g)"
    and srt: "sorted_wrt (\<lambda>a b. \<not> CompareDemand (h a) (h b)) ord"
    using processDemands_order [of h subs1 "demandQ g" "[]"] by blast
  have ord: "order = ord"
    unfolding order_def attemptOrder.simps subs1_def [symmetric] run by simp
  show "mset order = mset (demandQ g)" using perm ord by simp
  show "sorted_wrt (\<lambda>a b. \<not> CompareDemand (h a) (h b)) order" using srt ord by simp
  have "\<forall>r\<in>set order. state (fst F r) \<noteq> QUEUED"
    unfolding F_def using foldl_attempt_state [of _ order h subs1] by fastforce
  then have rq: "requeue (fst F) order [] = []" by (rule requeue_none)
  obtain jobs' s1 where um: "updateMaintenance now (maintenanceList g) (substations g) = (jobs', s1)"
    by (cases "updateMaintenance now (maintenanceList g) (substations g)")
  have s1: "subs1 = s1" unfolding subs1_def um by simp
  show "runScheduler now (h, g) =
           (fst F, \<lparr>demandQ = [], substations = snd F,
                    maintenanceList = fst (updateMaintenance now (maintenanceList g) (substations g))\<rparr>)"
    using run rq unfolding runScheduler.simps um s1 [symmetric] ord [symmetric] F_def [symmetric]
    by simp
qed

lemma tryAllocate_none:
  "\<forall>s\<in>set subs. \<not> mw \<le> available s \<Longrightarrow> tryAllocate mw subs = (False, subs)"
  by (induction subs) (simp_all add: allocate_def)

lemma tryAllocate_first:
  "i < length subs \<Longrightarrow> mw \<le> available (subs ! i) \<Longrightarrow>
   \<forall>k<i. \<not> mw \<le> available (subs ! k) \<Longrightarrow>
   tryAllocate mw subs = (True, subs[i := (subs ! i)\<lparr>usedMW := usedMW (subs ! i) + mw\<rparr>])"
proof (induction subs arbitrary: i)
  case Nil
  then show ?case by simp
next
  case (Cons sub subs)
  show ?case
  proof (cases i)
    case 0
    then show ?thesis using Cons.prems by (simp add: allocate_def)
  next
    case (Suc i')
    have "\<not> mw \<le> available sub" using Cons.prems(3) Suc by auto
    moreover have "tryAllocate mw subs =
        (True, subs[i' := (subs ! i')\<lparr>usedMW := usedMW (subs ! i') + mw\<rparr>])"
      using Cons.prems Suc by (intro Cons.IH) auto
    ultimately show ?thesis using Suc by (simp add: allocate_def)
  qed
qed

lemma tryAllocate_fst:
  "fst (tryAllocate mw subs) \<longleftrightarrow> (\<exists>s\<in>set subs. mw \<le> available s)"
  by (induction subs) (auto simp: allocate_def split: prod.splits)

lemma bit_length_pos: "0 < n \<Longrightarrow> bit_length n = Suc (bit_length (n div 2))"
  by (subst bit_length.simps) simp

lemma bit_length_nonpos: "n \<le> 0 \<Longrightarrow> bit_length n = 0"
  by (subst bit_length.simps) simp

lemma fp_norm_zero: "fp_norm 0 e = Fp 0 0"
  by (subst fp_norm.simps) simp

lemma fp_norm_even: "m \<noteq> 0 \<Longrightarrow> even m \<Longrightarrow> fp_norm m e = fp_norm (m div 2) (e + 1)"
  by (subst fp_norm.simps) simp

lemma fp_norm_odd: "odd m \<Longrightarrow> fp_norm m e = Fp m e"
  by (subst fp_norm.simps) auto








section \<open>The claims\<close>

lemmas run_defs =
  runScheduler.simps attemptOrder.simps attempt_def allocate_def available_def
  CompareDemand_def priority_def mkRequest_def noHeap_def pq_push_def addSubstation_def
  mkSubstation_def newGridController_def mainGrid_def scheduleMaintenance_def
  mkMaintenanceJob_def advanceState_def setOnline_def Let_def capacity_inv_def

lemmas fp_eval =
  zero_fp_def plus_fp_def minus_fp_def less_eq_fp_def less_fp_def
  fp_add_def fp_neg_def fp_less_eq_def fp_less_def fp_round_def round_even_def
  bit_length_pos bit_length_nonpos fp_norm_zero fp_norm_even fp_norm_odd Let_def

subsection \<open>Order of the attempts in a cycle\<close>

text \<open>
  C1. In a \<open>runScheduler\<close> cycle every pending request is popped and attempted
  exactly once (the attempt order is a permutation of the queue, and the cycle
  is the attempts folded over it), and a request of a higher priority class
  stands before every request of a lower class in that order.
\<close>

theorem priority_order:
  "mset (attemptOrder now (h, g)) = mset (demandQ g)
 \<and> (fst (runScheduler now (h, g)), substations (snd (runScheduler now (h, g))))
      = foldl (\<lambda>hs r. attempt r hs)
          (h, snd (updateMaintenance now (maintenanceList g) (substations g)))
          (attemptOrder now (h, g))
 \<and> (\<forall>i<length (attemptOrder now (h, g)). \<forall>j<length (attemptOrder now (h, g)).
       priority (h (attemptOrder now (h, g) ! i)) > priority (h (attemptOrder now (h, g) ! j))
       \<longrightarrow> i < j)"
proof -
  let ?order = "attemptOrder now (h, g)"
  have srt: "sorted_wrt (\<lambda>a b. \<not> CompareDemand (h a) (h b)) ?order"
    by (rule runScheduler_fold(2))
  have "i < j" if i: "i < length ?order" and j: "j < length ?order"
    and gt: "priority (h (?order ! i)) > priority (h (?order ! j))" for i j
  proof (rule ccontr)
    assume "\<not> i < j"
    moreover have "i \<noteq> j" using gt by auto
    ultimately have "j < i" by simp
    then have "\<not> CompareDemand (h (?order ! j)) (h (?order ! i))"
      using srt i by (simp add: sorted_wrt_iff_nth_less)
    then show False using gt by (simp add: CompareDemand_def)
  qed
  then show ?thesis
    using runScheduler_fold(1) [of now h g] by (simp add: runScheduler_fold(3))
qed

theorem priority_order_witness:
  "attemptOrder 10 demoPending = [1, 3, 2, 0]
 \<and> demandQ (snd demoPending) = [0, 1, 2, 3]
 \<and> (0::nat) < length (attemptOrder 10 demoPending)
 \<and> (3::nat) < length (attemptOrder 10 demoPending)
 \<and> priority (fst demoPending (attemptOrder 10 demoPending ! 0)) = 3
 \<and> priority (fst demoPending (attemptOrder 10 demoPending ! 3)) = 1
 \<and> (0::nat) < 3"
  using priority_order [of 10 "fst demoPending" "snd demoPending"]
  by (simp add: demoPending_def run_defs)

text \<open>
  C2. In a \<open>runScheduler\<close> cycle every pending request is popped and attempted
  exactly once (the attempt order is a permutation of the queue, and the cycle
  is the attempts folded over it), and among the requests of one priority
  class a request with an earlier creation timestamp stands before every
  request with a later timestamp in that order. Nothing is said about requests
  that agree in class and timestamp.
\<close>

theorem fifo_within_class:
  "mset (attemptOrder now (h, g)) = mset (demandQ g)
 \<and> (fst (runScheduler now (h, g)), substations (snd (runScheduler now (h, g))))
      = foldl (\<lambda>hs r. attempt r hs)
          (h, snd (updateMaintenance now (maintenanceList g) (substations g)))
          (attemptOrder now (h, g))
 \<and> (\<forall>i<length (attemptOrder now (h, g)). \<forall>j<length (attemptOrder now (h, g)).
       priority (h (attemptOrder now (h, g) ! i)) = priority (h (attemptOrder now (h, g) ! j))
     \<and> timestamp (h (attemptOrder now (h, g) ! i)) < timestamp (h (attemptOrder now (h, g) ! j))
       \<longrightarrow> i < j)"
proof -
  let ?order = "attemptOrder now (h, g)"
  have srt: "sorted_wrt (\<lambda>a b. \<not> CompareDemand (h a) (h b)) ?order"
    by (rule runScheduler_fold(2))
  have "i < j" if i: "i < length ?order" and j: "j < length ?order"
    and eq: "priority (h (?order ! i)) = priority (h (?order ! j))"
    and lt: "timestamp (h (?order ! i)) < timestamp (h (?order ! j))" for i j
  proof (rule ccontr)
    assume "\<not> i < j"
    moreover have "i \<noteq> j" using lt by auto
    ultimately have "j < i" by simp
    then have "\<not> CompareDemand (h (?order ! j)) (h (?order ! i))"
      using srt i by (simp add: sorted_wrt_iff_nth_less)
    then show False using eq lt by (simp add: CompareDemand_def)
  qed
  then show ?thesis
    using runScheduler_fold(1) [of now h g] by (simp add: runScheduler_fold(3))
qed

theorem fifo_within_class_witness:
  "attemptOrder 10 demoPending = [1, 3, 2, 0]
 \<and> demandQ (snd demoPending) = [0, 1, 2, 3]
 \<and> (1::nat) < length (attemptOrder 10 demoPending)
 \<and> (2::nat) < length (attemptOrder 10 demoPending)
 \<and> priority (fst demoPending (attemptOrder 10 demoPending ! 1)) = 2
 \<and> priority (fst demoPending (attemptOrder 10 demoPending ! 2)) = 2
 \<and> timestamp (fst demoPending (attemptOrder 10 demoPending ! 1)) = 102
 \<and> timestamp (fst demoPending (attemptOrder 10 demoPending ! 2)) = 110
 \<and> (1::nat) < 2"
  using fifo_within_class [of 10 "fst demoPending" "snd demoPending"]
  by (simp add: demoPending_def run_defs)

subsection \<open>Substation: allocate\<close>

text \<open>
  C3, as stated, fails: the increase of \<open>usedMW\<close> is the requested amount only
  up to the rounding of the double sum. On S01 (50 MW) with 30 MW in use,
  \<open>allocate\<close> with the positive amount \<open>2 ^ -60\<close> passes the guard, returns true
  and leaves \<open>usedMW\<close> at 30.
\<close>

theorem allocate_exact_increment_counterexample:
  "(0::fp) < Fp 1 (- 60)
 \<and> Fp 1 (- 60) \<le> available fpThirty
 \<and> fst (allocate (Fp 1 (- 60)) fpThirty)
 \<and> usedMW (snd (allocate (Fp 1 (- 60)) fpThirty)) = usedMW fpThirty
 \<and> snd (allocate (Fp 1 (- 60)) fpThirty) = fpThirty"
  by (simp add: fpThirty_def allocate_def available_def fp_eval)

text \<open>
  C3, amended. For every \<open>mw\<close>, \<open>allocate\<close> returns true exactly when
  \<open>available() >= mw\<close>; in that case it replaces \<open>usedMW\<close> by the sum
  \<open>usedMW + mw\<close> as the machine computes it and changes no other field, and when
  it returns false the substation is unchanged. This holds for every
  interpretation of the arithmetic.
\<close>

theorem allocate_iff_available:
  "(fst (allocate mw s) \<longleftrightarrow> available s \<ge> mw)
 \<and> (available s \<ge> mw \<longrightarrow> snd (allocate mw s) = s\<lparr>usedMW := usedMW s + mw\<rparr>)
 \<and> (\<not> fst (allocate mw s) \<longrightarrow> snd (allocate mw s) = s)"
  by (simp add: allocate_def)

theorem allocate_iff_available_witness:
  "available (mkSubstation ''S01'' 50 :: real Substation) \<ge> 30
 \<and> fst (allocate 30 (mkSubstation ''S01'' 50 :: real Substation))
 \<and> snd (allocate 30 (mkSubstation ''S01'' 50 :: real Substation))
     = \<lparr>sub_id = ''S01'', capacityMW = 50, usedMW = 30, online = True\<rparr>
 \<and> \<not> fst (allocate 45 (snd (allocate 30 (mkSubstation ''S01'' 50 :: real Substation))))
 \<and> snd (allocate 45 (snd (allocate 30 (mkSubstation ''S01'' 50 :: real Substation))))
     = snd (allocate 30 (mkSubstation ''S01'' 50 :: real Substation))"
  using allocate_iff_available [of 30 "mkSubstation ''S01'' 50 :: real Substation"]
    allocate_iff_available
      [of 45 "snd (allocate 30 (mkSubstation ''S01'' 50 :: real Substation))"]
  by (simp add: mkSubstation_def available_def allocate_def)

subsection \<open>The capacity invariant\<close>




subsection \<open>Maintenance gating\<close>

text \<open>
  What step 1 of a cycle computes: every job is advanced, and the \<open>online\<close> flag
  of a substation is the value written for the last job in list order that
  names it; a substation that no job names keeps its flag.
\<close>

lemma advanceState_substationID: "substationID (advanceState now j) = substationID j"
  by (simp add: advanceState_def Let_def)

lemma updateMaintenance_fold:
  "updateMaintenance now jobs subs =
     (map (advanceState now) jobs,
      foldl (\<lambda>s job. setOnline (advanceState now job) s) subs jobs)"
  by (induction jobs arbitrary: subs) (simp_all add: Let_def)

lemma foldl_setOnline_last_write:
  "foldl (\<lambda>s job. setOnline (advanceState now job) s) subs jobs =
     map (\<lambda>sub. sub\<lparr>online :=
            foldl (\<lambda>flag job. if sub_id sub = substationID job
                              then jobState (advanceState now job) \<noteq> IN_PROGRESS else flag)
              (online sub) jobs\<rparr>) subs"
proof (induction jobs arbitrary: subs)
  case Nil
  show ?case by (simp add: map_idI)
next
  case (Cons job jobs)
  have "map (\<lambda>sub. sub\<lparr>online :=
            foldl (\<lambda>flag job. if sub_id sub = substationID job
                              then jobState (advanceState now job) \<noteq> IN_PROGRESS else flag)
              (online sub) jobs\<rparr>) (setOnline (advanceState now job) subs)
      = map (\<lambda>sub. sub\<lparr>online :=
            foldl (\<lambda>flag job. if sub_id sub = substationID job
                              then jobState (advanceState now job) \<noteq> IN_PROGRESS else flag)
              (online sub) (job # jobs)\<rparr>) subs"
    unfolding setOnline_def map_map
    by (rule map_cong [OF refl]) (simp add: advanceState_substationID)
  then show ?case by (simp add: Cons.IH)
qed

text \<open>
  C5 fails on the code. With two maintenance jobs on S01 in the list, the
  first in progress at \<open>now = 10\<close> and the second not yet started, the
  maintenance step of the cycle leaves S01 online, because the second job
  writes the flag last; the pending request is then allocated to S01.
\<close>

theorem maintenance_last_job_wins:
  "maintenanceList (snd (runScheduler 10 overlapPending)) =
     [\<lparr>substationID = ''S01'', startTime = 0, endTime = 3600, jobState = IN_PROGRESS\<rparr>,
      \<lparr>substationID = ''S01'', startTime = 7200, endTime = 10800, jobState = SCHEDULED\<rparr>]
 \<and> snd (updateMaintenance 10 (maintenanceList (snd overlapPending))
           (substations (snd overlapPending))) =
     [\<lparr>sub_id = ''S01'', capacityMW = 50, usedMW = 0, online = True\<rparr>,
      \<lparr>sub_id = ''S02'', capacityMW = 40, usedMW = 0, online = True\<rparr>,
      \<lparr>sub_id = ''S03'', capacityMW = 60, usedMW = 0, online = True\<rparr>]
 \<and> substations (snd (runScheduler 10 overlapPending)) =
     [\<lparr>sub_id = ''S01'', capacityMW = 50, usedMW = 30, online = True\<rparr>,
      \<lparr>sub_id = ''S02'', capacityMW = 40, usedMW = 0, online = True\<rparr>,
      \<lparr>sub_id = ''S03'', capacityMW = 60, usedMW = 0, online = True\<rparr>]
 \<and> state (fst (runScheduler 10 overlapPending) 0) = ALLOCATED"
  by (simp add: overlapPending_def run_defs)

subsection \<open>First fit or shed\<close>

text \<open>
  C6. A cycle is the attempts folded over the attempt order. One attempt tries
  the substations in list order: if \<open>i\<close> is the first index whose
  \<open>available()\<close> covers the requested amount, the request becomes ALLOCATED and
  exactly substation \<open>i\<close> has the amount added to \<open>usedMW\<close>; the request becomes
  SHED exactly when no substation covers the amount, and then no substation
  changes. On the grid S01 (50), S02 (40) with an industrial request for 30 MW
  and a residential request for 45 MW pending, one cycle allocates the
  industrial request to S01 (\<open>usedMW = 30\<close>) and sheds the residential one.
\<close>

theorem first_fit_or_shed:
  "(fst (runScheduler now (h, g)), substations (snd (runScheduler now (h, g))))
      = foldl (\<lambda>hs r. attempt r hs)
          (h, snd (updateMaintenance now (maintenanceList g) (substations g)))
          (attemptOrder now (h, g))
 \<and> (\<forall>i<length subs.
       megawatts (h req) \<le> available (subs ! i)
     \<and> (\<forall>k<i. \<not> megawatts (h req) \<le> available (subs ! k))
     \<longrightarrow> attempt req (h, subs) =
          (h(req := (h req)\<lparr>state := ALLOCATED\<rparr>),
           subs[i := (subs ! i)\<lparr>usedMW := usedMW (subs ! i) + megawatts (h req)\<rparr>]))
 \<and> ((\<forall>s\<in>set subs. \<not> megawatts (h req) \<le> available s)
     \<longrightarrow> attempt req (h, subs) = (h(req := (h req)\<lparr>state := SHED\<rparr>), subs))
 \<and> (state (fst (attempt req (h, subs)) req) = SHED
     \<longleftrightarrow> (\<forall>s\<in>set subs. \<not> megawatts (h req) \<le> available s))
 \<and> state (fst (runScheduler now (scenarioPending t1 t2)) 0) = ALLOCATED
 \<and> state (fst (runScheduler now (scenarioPending t1 t2)) 1) = SHED
 \<and> substations (snd (runScheduler now (scenarioPending t1 t2))) =
     [\<lparr>sub_id = ''S01'', capacityMW = 50, usedMW = 30, online = True\<rparr>,
      \<lparr>sub_id = ''S02'', capacityMW = 40, usedMW = 0, online = True\<rparr>]"
proof -
  have "attempt req (h, subs) =
          (h(req := (h req)\<lparr>state := ALLOCATED\<rparr>),
           subs[i := (subs ! i)\<lparr>usedMW := usedMW (subs ! i) + megawatts (h req)\<rparr>])"
    if "i < length subs" "megawatts (h req) \<le> available (subs ! i)"
      "\<forall>k<i. \<not> megawatts (h req) \<le> available (subs ! k)" for i
    using tryAllocate_first [OF that] by (simp add: attempt_def)
  moreover have "attempt req (h, subs) = (h(req := (h req)\<lparr>state := SHED\<rparr>), subs)"
    if "\<forall>s\<in>set subs. \<not> megawatts (h req) \<le> available s"
    using tryAllocate_none [OF that] by (simp add: attempt_def)
  moreover have "state (fst (attempt req (h, subs)) req) = SHED
     \<longleftrightarrow> (\<forall>s\<in>set subs. \<not> megawatts (h req) \<le> available s)"
    using tryAllocate_fst [of "megawatts (h req)" subs]
    by (auto simp: attempt_def split: prod.splits)
  moreover have "state (fst (runScheduler now (scenarioPending t1 t2)) 0) = ALLOCATED"
    by (simp add: scenarioPending_def run_defs)
  moreover have "state (fst (runScheduler now (scenarioPending t1 t2)) 1) = SHED"
    by (simp add: scenarioPending_def run_defs)
  moreover have "substations (snd (runScheduler now (scenarioPending t1 t2))) =
     [\<lparr>sub_id = ''S01'', capacityMW = 50, usedMW = 30, online = True\<rparr>,
      \<lparr>sub_id = ''S02'', capacityMW = 40, usedMW = 0, online = True\<rparr>]"
    by (simp add: scenarioPending_def run_defs)
  ultimately show ?thesis by (simp add: runScheduler_fold(3))
qed

theorem first_fit_or_shed_witness:
  "(1::nat) < length (substations (snd (runScheduler 10 demoPending)))
 \<and> megawatts (fst demoPending 2) \<le> available (substations (snd (runScheduler 10 demoPending)) ! 1)
 \<and> \<not> megawatts (fst demoPending 2)
        \<le> available (substations (snd (runScheduler 10 demoPending)) ! 0)
 \<and> attempt 2 (fst demoPending, substations (snd (runScheduler 10 demoPending))) =
     ((fst demoPending)(2 := (fst demoPending 2)\<lparr>state := ALLOCATED\<rparr>),
      [\<lparr>sub_id = ''S01'', capacityMW = 50, usedMW = 45, online = True\<rparr>,
       \<lparr>sub_id = ''S02'', capacityMW = 40, usedMW = 20, online = True\<rparr>,
       \<lparr>sub_id = ''S03'', capacityMW = 60, usedMW = 0, online = True\<rparr>])
 \<and> list_all (\<lambda>s. \<not> megawatts (fst demoPending 0) \<le> available s)
       (substations (snd (runScheduler 10 demoPending)))
 \<and> attempt 0 (fst demoPending, substations (snd (runScheduler 10 demoPending))) =
     ((fst demoPending)(0 := (fst demoPending 0)\<lparr>state := SHED\<rparr>),
      substations (snd (runScheduler 10 demoPending)))
 \<and> state (fst (runScheduler 10 (scenarioPending 100 101)) 1) = SHED"
  using first_fit_or_shed [of 10 "fst demoPending" "snd demoPending"
      "substations (snd (runScheduler 10 demoPending))" 2 100 101]
    first_fit_or_shed [of 10 "fst demoPending" "snd demoPending"
      "substations (snd (runScheduler 10 demoPending))" 0 100 101]
  by (simp add: demoPending_def scenarioPending_def run_defs)

subsection \<open>The end of a cycle\<close>

text \<open>
  C7. After \<open>runScheduler\<close> the pending queue is empty, so nothing was pushed
  back by the last loop, and every request that was pending when the cycle
  began is ALLOCATED or SHED.
\<close>

theorem no_request_left_queued:
  "demandQ (snd (runScheduler now (h, g))) = []
 \<and> (\<forall>p\<in>set (demandQ g).
       state (fst (runScheduler now (h, g)) p) = ALLOCATED
     \<or> state (fst (runScheduler now (h, g)) p) = SHED)"
proof -
  have "set (attemptOrder now (h, g)) = set (demandQ g)"
    using runScheduler_fold(1) [of now h g] by (rule mset_eq_setD)
  then show ?thesis
    using foldl_attempt_state
      [of _ "attemptOrder now (h, g)" h
         "snd (updateMaintenance now (maintenanceList g) (substations g))"]
    by (simp add: runScheduler_fold(3))
qed

theorem no_request_left_queued_witness:
  "demandQ (snd demoPending) = [0, 1, 2, 3]
 \<and> map (\<lambda>p. state (fst demoPending p)) [0, 1, 2, 3] = [QUEUED, QUEUED, QUEUED, QUEUED]
 \<and> demandQ (snd (runScheduler 10 demoPending)) = []
 \<and> map (\<lambda>p. state (fst (runScheduler 10 demoPending) p)) [0, 1, 2, 3]
     = [SHED, ALLOCATED, ALLOCATED, ALLOCATED]"
  using no_request_left_queued [of 10 "fst demoPending" "snd demoPending"]
  by (simp add: demoPending_def run_defs)

subsection \<open>MaintenanceJob: advanceState\<close>

text \<open>
  C8. \<open>advanceState now\<close> takes a SCHEDULED job with \<open>now \<ge> startTime\<close> to
  IN_PROGRESS, and in the same call on to DONE when also \<open>now \<ge> endTime\<close>; a
  DONE job is left as it is for every \<open>now\<close>; the state never moves backwards
  and no other field changes.
\<close>

theorem advanceState_transitions:
  "(jobState j = SCHEDULED \<and> now \<ge> startTime j \<longrightarrow>
      jobState (advanceState now j) = (if now \<ge> endTime j then DONE else IN_PROGRESS))
 \<and> (jobState j = DONE \<longrightarrow> advanceState now j = j)
 \<and> jobRank (jobState j) \<le> jobRank (jobState (advanceState now j))
 \<and> advanceState now j = j\<lparr>jobState := jobState (advanceState now j)\<rparr>"
  by (cases "jobState j") (simp_all add: advanceState_def Let_def)

theorem advanceState_transitions_witness:
  "jobState (mkMaintenanceJob ''S01'' 100 200) = SCHEDULED
   \<and> (150::int) \<ge> startTime (mkMaintenanceJob ''S01'' 100 200)
   \<and> jobState (advanceState 150 (mkMaintenanceJob ''S01'' 100 200)) = IN_PROGRESS
   \<and> (250::int) \<ge> startTime (mkMaintenanceJob ''S01'' 100 200)
   \<and> jobState (advanceState 250 (mkMaintenanceJob ''S01'' 100 200)) = DONE
   \<and> jobState (advanceState 250 (mkMaintenanceJob ''S01'' 100 200)) = DONE
   \<and> advanceState 300 (advanceState 250 (mkMaintenanceJob ''S01'' 100 200))
       = advanceState 250 (mkMaintenanceJob ''S01'' 100 200)"
  using advanceState_transitions [of "mkMaintenanceJob ''S01'' 100 200" 150]
    advanceState_transitions [of "mkMaintenanceJob ''S01'' 100 200" 250]
    advanceState_transitions [of "advanceState 250 (mkMaintenanceJob ''S01'' 100 200)" 300]
  by (simp add: mkMaintenanceJob_def)

subsection \<open>Substation: allocate with a non-positive amount\<close>



subsection \<open>Intake operations\<close>

text \<open>
  C10. \<open>receiveDemand\<close> sets the state of the request it is given to QUEUED,
  changes no other field of it and no other request, adds exactly that request
  to the pending queue, and leaves the substations and the maintenance list as
  they are. \<open>scheduleMaintenance\<close> appends one SCHEDULED job with the given
  substation id and instants to the maintenance list, whatever the id is, and
  leaves the substations and the pending queue as they are.
\<close>

theorem intake_frame:
  "state (fst (receiveDemand req (h, g)) req) = QUEUED
 \<and> fst (receiveDemand req (h, g)) req = (h req)\<lparr>state := QUEUED\<rparr>
 \<and> (\<forall>p. p \<noteq> req \<longrightarrow> fst (receiveDemand req (h, g)) p = h p)
 \<and> mset (demandQ (snd (receiveDemand req (h, g)))) = add_mset req (mset (demandQ g))
 \<and> substations (snd (receiveDemand req (h, g))) = substations g
 \<and> maintenanceList (snd (receiveDemand req (h, g))) = maintenanceList g
 \<and> maintenanceList (scheduleMaintenance sid start end g)
     = maintenanceList g @
       [\<lparr>substationID = sid, startTime = start, endTime = end, jobState = SCHEDULED\<rparr>]
 \<and> substations (scheduleMaintenance sid start end g) = substations g
 \<and> demandQ (scheduleMaintenance sid start end g) = demandQ g"
  by (simp add: scheduleMaintenance_def pq_push_def mkMaintenanceJob_def)

theorem intake_frame_witness:
  "(1::nat) \<noteq> 0
 \<and> state (fst (receiveDemand 0 (noHeap :: real heap, mainGrid)) 0) = QUEUED
 \<and> fst (receiveDemand 0 (noHeap :: real heap, mainGrid)) 1 = noHeap 1
 \<and> demandQ (snd (receiveDemand 0 (noHeap :: real heap, mainGrid))) = [0]
 \<and> substations (snd (receiveDemand 0 (noHeap :: real heap, mainGrid))) = substations mainGrid
 \<and> maintenanceList (scheduleMaintenance ''S99'' 5 3605 (mainGrid :: real GridController))
     = [\<lparr>substationID = ''S99'', startTime = 5, endTime = 3605, jobState = SCHEDULED\<rparr>]
 \<and> substations (scheduleMaintenance ''S99'' 5 3605 (mainGrid :: real GridController))
     = substations mainGrid"
  using intake_frame [of 0 "noHeap :: real heap" mainGrid "''S99''" 5 3605]
  by (simp add: run_defs)

end
